theory Spec2Isabelle
  imports Main "HOL-Library.Word"
begin

section \<open>Data model\<close>

text \<open>
  A Go \<^verbatim>\<open>[]byte\<close> is a list of bytes; an Isabelle \<^typ>\<open>char\<close> is one byte, so
  \<^typ>\<open>string\<close> is the type of byte slices and of Go strings alike. The two key columns
  of the table and the result of \<^verbatim>\<open>jsonparser.GetInt\<close> are 64-bit integers.
\<close>

type_synonym bytes = string
type_synonym int64 = "64 word"

text \<open>
  Every error value the program can see. It creates none itself: each comes out of a call
  to a library (snappy, jsonparser, database/sql with the PostgreSQL driver).
\<close>

datatype error =
    ErrCorrupt
  | KeyPathNotFoundError
  | MalformedJsonError
  | MalformedStringError
  | MalformedArrayError
  | MalformedObjectError
  | MalformedValueError
  | UnknownValueTypeError
  | OverflowIntegerError
  | ValueIsNotANumber
  | ErrBadConn
  | ErrInvalidTextRepresentation
  | ErrScan

text \<open>
  A Go function of the program ends in one of three ways: it returns a value with a nil
  error, it returns a non-nil error, or it panics (an out-of-range slice expression).
\<close>

datatype 'a result = Ok 'a | Err error | Panic

text \<open>The second result of \<^verbatim>\<open>jsonparser.Get\<close>, which the program discards.\<close>

datatype ValueType = NotExist | String | Number | Object | Array | Boolean | Null | Unknown

text \<open>
  The table of \<^verbatim>\<open>migrations/1485263603_initital_schema.up.sql\<close>: the columns
  \<^verbatim>\<open>"regionID"\<close>, \<^verbatim>\<open>"typeID"\<close> and \<^verbatim>\<open>"market"\<close>, the first two forming the
  primary key.
\<close>

record market_row =
  col_regionID :: int64
  col_typeID :: int64
  col_market :: bytes

type_synonym markets = "market_row list"

definition row_key :: "market_row \<Rightarrow> int64 \<times> int64" where
  "row_key x = (col_regionID x, col_typeID x)"

text \<open>The constraint \<^verbatim>\<open>PRIMARY KEY ("regionID", "typeID")\<close>.\<close>

definition primary_key :: "markets \<Rightarrow> bool" where
  "primary_key tbl = distinct (map row_key tbl)"

text \<open>
  The process-wide handle \<^verbatim>\<open>db\<close>: the committed table, and the number of transactions
  begun on it that have been neither committed nor rolled back (each holds one connection of
  the pool until then).
\<close>

record db =
  table :: markets
  open_txs :: nat

text \<open>A transaction works on its own copy of the table until it commits.\<close>

type_synonym tx = markets

text \<open>
  What \<^verbatim>\<open>*sql.Rows\<close> delivers: one entry for each row \<^verbatim>\<open>rows.Next()\<close> reaches,
  holding what \<^verbatim>\<open>rows.Scan(&market)\<close> gives for it. \<^verbatim>\<open>rows.Next()\<close> returns false
  at the end of the result set and also when fetching the next row fails; the program
  never asks \<^verbatim>\<open>rows.Err()\<close> which of the two it was, so the rows reached are all it sees.
\<close>

type_synonym sql_rows = "(error + bytes) list"

section \<open>The libraries the program calls\<close>

text \<open>
  None of the libraries is part of the repository, so the program is modelled over any
  behaviour of theirs: the functions below take the library functions they call as the
  fields of an environment.
  \<^item> \<^verbatim>\<open>snappy.Encode(nil, src)\<close> and \<^verbatim>\<open>snappy.Decode(nil, src)\<close>;
  \<^item> \<^verbatim>\<open>jsonparser.GetInt(data, key)\<close> and \<^verbatim>\<open>jsonparser.Get(data, key)\<close>, the latter
    without the offset it returns third;
  \<^item> the conversion the store applies to a text parameter compared with an \<^verbatim>\<open>int8\<close>
    column (the query handlers pass the path parameters as strings).
\<close>

record env =
  snappy_Encode :: "bytes \<Rightarrow> bytes"
  snappy_Decode :: "bytes \<Rightarrow> error + bytes"
  jsonparser_GetInt :: "bytes \<Rightarrow> string \<Rightarrow> error + int64"
  jsonparser_Get :: "bytes \<Rightarrow> string \<Rightarrow> error + bytes \<times> ValueType"
  pg_int8 :: "string \<Rightarrow> int64 option"

text \<open>
  The store can fail at each call. One record says, for one run of a handler, which of its
  calls fail and with what error; \<open>next_err i\<close> is the failure of \<^verbatim>\<open>rows.Next()\<close> when
  it fetches the \<open>i\<close>-th row, and \<open>scan_err i\<close> the failure of \<^verbatim>\<open>rows.Scan\<close> on the
  \<open>i\<close>-th row.
\<close>

record faults =
  begin_err :: "error option"
  exec_err :: "error option"
  next_err :: "nat \<Rightarrow> error option"
  scan_err :: "nat \<Rightarrow> error option"
  commit_err :: "error option"

definition no_faults :: faults where
  "no_faults =
     \<lparr>begin_err = None, exec_err = None, next_err = (\<lambda>_. None), scan_err = (\<lambda>_. None),
      commit_err = None\<rparr>"

section \<open>The store\<close>

text \<open>\<^verbatim>\<open>db.Begin()\<close>: on success one more transaction is open.\<close>

definition db_Begin :: "faults \<Rightarrow> db \<Rightarrow> error + tx \<times> db" where
  "db_Begin F s =
     (case begin_err F of
        Some err \<Rightarrow> Inl err
      | None \<Rightarrow> Inr (table s, s\<lparr>open_txs := open_txs s + 1\<rparr>))"

text \<open>
  \<^verbatim>\<open>INSERT INTO markets ... VALUES ($1, $2, $3) ON CONFLICT ("regionID", "typeID") DO
  UPDATE SET "market" = EXCLUDED."market"\<close>: the row of that key gets the new payload, and
  a key the table does not hold gets a new row.
\<close>

fun upsert :: "int64 \<Rightarrow> int64 \<Rightarrow> bytes \<Rightarrow> markets \<Rightarrow> markets" where
  "upsert r t m [] = [\<lparr>col_regionID = r, col_typeID = t, col_market = m\<rparr>]"
| "upsert r t m (x # xs) =
     (if col_regionID x = r \<and> col_typeID x = t then x\<lparr>col_market := m\<rparr> # xs
      else x # upsert r t m xs)"

definition tx_Exec :: "faults \<Rightarrow> tx \<Rightarrow> int64 \<Rightarrow> int64 \<Rightarrow> bytes \<Rightarrow> error + tx" where
  "tx_Exec F t r ty m =
     (case exec_err F of
        Some err \<Rightarrow> Inl err
      | None \<Rightarrow> Inr (upsert r ty m t))"

text \<open>
  The iteration \<^verbatim>\<open>for rows.Next() { rows.Scan(&market) ... }\<close> over a result set, in the
  order the store gives the rows: it ends at the last row, and it ends early, with the rows
  reached so far, at the first row whose fetch fails.
\<close>

fun scan_from :: "faults \<Rightarrow> nat \<Rightarrow> bytes list \<Rightarrow> sql_rows" where
  "scan_from F i [] = []"
| "scan_from F i (m # ms) =
     (case next_err F i of
        Some err \<Rightarrow> []
      | None \<Rightarrow>
        (case scan_err F i of Some err \<Rightarrow> Inl err | None \<Rightarrow> Inr m) # scan_from F (Suc i) ms)"

text \<open>
  The three \<^verbatim>\<open>SELECT "market" FROM "markets" WHERE ...\<close> statements. A parameter that is
  not the text of an \<^verbatim>\<open>int8\<close> makes the statement fail.
\<close>

definition tx_Query_region :: "env \<Rightarrow> faults \<Rightarrow> tx \<Rightarrow> string \<Rightarrow> error + sql_rows" where
  "tx_Query_region E F t p1 =
     (case exec_err F of
        Some err \<Rightarrow> Inl err
      | None \<Rightarrow>
        (case pg_int8 E p1 of
           None \<Rightarrow> Inl ErrInvalidTextRepresentation
         | Some r \<Rightarrow> Inr (scan_from F 0 (map col_market (filter (\<lambda>x. col_regionID x = r) t)))))"

definition tx_Query_type :: "env \<Rightarrow> faults \<Rightarrow> tx \<Rightarrow> string \<Rightarrow> error + sql_rows" where
  "tx_Query_type E F t p1 =
     (case exec_err F of
        Some err \<Rightarrow> Inl err
      | None \<Rightarrow>
        (case pg_int8 E p1 of
           None \<Rightarrow> Inl ErrInvalidTextRepresentation
         | Some ty \<Rightarrow> Inr (scan_from F 0 (map col_market (filter (\<lambda>x. col_typeID x = ty) t)))))"

definition tx_Query_region_type ::
  "env \<Rightarrow> faults \<Rightarrow> tx \<Rightarrow> string \<Rightarrow> string \<Rightarrow> error + sql_rows" where
  "tx_Query_region_type E F t p1 p2 =
     (case exec_err F of
        Some err \<Rightarrow> Inl err
      | None \<Rightarrow>
        (case pg_int8 E p1 of
           None \<Rightarrow> Inl ErrInvalidTextRepresentation
         | Some r \<Rightarrow>
           (case pg_int8 E p2 of
              None \<Rightarrow> Inl ErrInvalidTextRepresentation
            | Some ty \<Rightarrow>
              Inr (scan_from F 0
                     (map col_market (filter (\<lambda>x. col_regionID x = r \<and> col_typeID x = ty) t))))))"

text \<open>
  \<^verbatim>\<open>tx.Commit()\<close>: the transaction is over whether or not the commit succeeds, and its
  writes reach the table only when it does.
\<close>

definition tx_Commit :: "faults \<Rightarrow> tx \<Rightarrow> db \<Rightarrow> error option \<times> db" where
  "tx_Commit F t s =
     (case commit_err F of
        Some err \<Rightarrow> (Some err, s\<lparr>open_txs := open_txs s - 1\<rparr>)
      | None \<Rightarrow> (None, s\<lparr>table := t, open_txs := open_txs s - 1\<rparr>))"

section \<open>Ingestion: handleMessage\<close>

definition handleMessage :: "env \<Rightarrow> faults \<Rightarrow> db \<Rightarrow> bytes \<Rightarrow> error option \<times> db" where
  "handleMessage E F s body =
     (case jsonparser_GetInt E body ''regionID'' of
        Inl err \<Rightarrow> (Some err, s)
      | Inr regionID \<Rightarrow>
        (case jsonparser_GetInt E body ''typeID'' of
           Inl err \<Rightarrow> (Some err, s)
         | Inr typeID \<Rightarrow>
           (let compressedRowset = snappy_Encode E body in
            case db_Begin F s of
              Inl err \<Rightarrow> (Some err, s)
            | Inr (t, s1) \<Rightarrow>
              (case tx_Exec F t regionID typeID compressedRowset of
                 Inl err \<Rightarrow> (Some err, s1)
               | Inr t1 \<Rightarrow> tx_Commit F t1 s1))))"

section \<open>The merge: concatRowsToJSON\<close>

text \<open>
  The slice expression \<^verbatim>\<open>s[lo:hi]\<close> of Go: it panics unless \<open>0 \<le> lo \<le> hi \<le> cap s\<close>.
  The capacity is taken to be the length; the one slice expression of the program has
  \<open>hi\<close> below the length, so only \<open>lo \<le> hi\<close> can fail there.
\<close>

definition slice :: "'a list \<Rightarrow> int \<Rightarrow> int \<Rightarrow> 'a list option" where
  "slice s lo hi =
     (if 0 \<le> lo \<and> lo \<le> hi \<and> hi \<le> int (length s)
      then Some (take (nat hi - nat lo) (drop (nat lo) s))
      else None)"

text \<open>
  The body of the loop \<^verbatim>\<open>for rows.Next() { ... }\<close>, with the response built so far as
  the accumulator.
\<close>

fun concat_loop :: "env \<Rightarrow> bytes \<Rightarrow> sql_rows \<Rightarrow> bytes result" where
  "concat_loop E response [] = Ok response"
| "concat_loop E response (row # rows) =
     (case row of
        Inl err \<Rightarrow> Err err
      | Inr market \<Rightarrow>
        (case snappy_Decode E market of
           Inl err \<Rightarrow> Err err
         | Inr decompressedMarket \<Rightarrow>
           (case jsonparser_Get E decompressedMarket ''orders'' of
              Inl err \<Rightarrow> Err err
            | Inr (orders, _) \<Rightarrow>
              (case slice orders 1 (int (length orders) - 1) of
                 None \<Rightarrow> Panic
               | Some elems \<Rightarrow> concat_loop E (response @ elems @ '','') rows))))"

definition concatRowsToJSON :: "env \<Rightarrow> sql_rows \<Rightarrow> bytes result" where
  "concatRowsToJSON E rows =
     (case concat_loop E ''['' rows of
        Ok response \<Rightarrow>
          Ok ((if length response > 1 then take (length response - 1) response else response)
              @ '']'')
      | Err err \<Rightarrow> Err err
      | Panic \<Rightarrow> Panic)"

section \<open>The query handlers\<close>

text \<open>
  What a handler leaves on the connection: a response, or nothing when it panicked (the
  router is built with \<^verbatim>\<open>gin.New()\<close>, without the recovery middleware).
\<close>

record response =
  status :: nat
  headers :: "(string \<times> string) list"
  body :: bytes

datatype reply = Reply response | HandlerPanic

text \<open>\<^verbatim>\<open>context.AbortWithError(code, err)\<close> writes the status and no body.\<close>

definition AbortWithError :: "nat \<Rightarrow> error \<Rightarrow> reply" where
  "AbortWithError code err = Reply \<lparr>status = code, headers = [], body = []\<rparr>"

text \<open>
  \<^verbatim>\<open>context.Header("Access-Control-Allow-Origin", "*")\<close> followed by
  \<^verbatim>\<open>context.Data(200, "application/json; charset=utf-8", response)\<close>.
\<close>

definition Data :: "bytes \<Rightarrow> reply" where
  "Data r =
     Reply \<lparr>status = 200,
            headers = [(''Access-Control-Allow-Origin'', ''*''),
                       (''Content-Type'', ''application/json; charset=utf-8'')],
            body = r\<rparr>"

text \<open>
  The three handlers, each as the source has it: begin, query, merge, commit, respond.
\<close>

definition getRegion :: "env \<Rightarrow> faults \<Rightarrow> db \<Rightarrow> string \<Rightarrow> reply \<times> db" where
  "getRegion E F s regionID =
     (case db_Begin F s of
        Inl err \<Rightarrow> (AbortWithError 500 err, s)
      | Inr (t, s1) \<Rightarrow>
        (case tx_Query_region E F t regionID of
           Inl err \<Rightarrow> (AbortWithError 500 err, s1)
         | Inr rows \<Rightarrow>
           (case concatRowsToJSON E rows of
              Err err \<Rightarrow> (AbortWithError 404 err, s1)
            | Panic \<Rightarrow> (HandlerPanic, s1)
            | Ok response \<Rightarrow>
              (case tx_Commit F t s1 of
                 (Some err, s2) \<Rightarrow> (AbortWithError 500 err, s2)
               | (None, s2) \<Rightarrow> (Data response, s2)))))"

definition getType :: "env \<Rightarrow> faults \<Rightarrow> db \<Rightarrow> string \<Rightarrow> reply \<times> db" where
  "getType E F s typeID =
     (case db_Begin F s of
        Inl err \<Rightarrow> (AbortWithError 500 err, s)
      | Inr (t, s1) \<Rightarrow>
        (case tx_Query_type E F t typeID of
           Inl err \<Rightarrow> (AbortWithError 500 err, s1)
         | Inr rows \<Rightarrow>
           (case concatRowsToJSON E rows of
              Err err \<Rightarrow> (AbortWithError 404 err, s1)
            | Panic \<Rightarrow> (HandlerPanic, s1)
            | Ok response \<Rightarrow>
              (case tx_Commit F t s1 of
                 (Some err, s2) \<Rightarrow> (AbortWithError 500 err, s2)
               | (None, s2) \<Rightarrow> (Data response, s2)))))"

definition getRegionType :: "env \<Rightarrow> faults \<Rightarrow> db \<Rightarrow> string \<Rightarrow> string \<Rightarrow> reply \<times> db" where
  "getRegionType E F s regionID typeID =
     (case db_Begin F s of
        Inl err \<Rightarrow> (AbortWithError 500 err, s)
      | Inr (t, s1) \<Rightarrow>
        (case tx_Query_region_type E F t regionID typeID of
           Inl err \<Rightarrow> (AbortWithError 500 err, s1)
         | Inr rows \<Rightarrow>
           (case concatRowsToJSON E rows of
              Err err \<Rightarrow> (AbortWithError 404 err, s1)
            | Panic \<Rightarrow> (HandlerPanic, s1)
            | Ok response \<Rightarrow>
              (case tx_Commit F t s1 of
                 (Some err, s2) \<Rightarrow> (AbortWithError 500 err, s2)
               | (None, s2) \<Rightarrow> (Data response, s2)))))"

section \<open>An instance of the libraries\<close>

text \<open>
  The theorems below hold for every environment. To run the program on concrete messages
  they are applied to one environment, \<open>lib\<close>, put together in this section.
\<close>

subsection \<open>Integers in decimal\<close>

definition digit_val :: "char \<Rightarrow> nat option" where
  "digit_val c =
     (let n = (of_char c :: nat) in if 48 \<le> n \<and> n \<le> 57 then Some (n - 48) else None)"

fun digits_value :: "nat \<Rightarrow> string \<Rightarrow> nat option" where
  "digits_value acc [] = Some acc"
| "digits_value acc (c # cs) =
     (case digit_val c of None \<Rightarrow> None | Some d \<Rightarrow> digits_value (10 * acc + d) cs)"

text \<open>
  Modelled from the spec: the reading of a decimal text as a 64-bit integer, which
  \<^verbatim>\<open>jsonparser.GetInt\<close> does on a number token and the store does on a text parameter
  (neither is under src/). Section 3 makes both identifiers 64-bit integers and section 4.5
  has a path parameter that is not a well-formed integer surface as a store error. The text
  is an optional minus sign and at least one digit, and the value must fit 64 bits.
\<close>

definition parse_int64 :: "string \<Rightarrow> int64 option" where
  "parse_int64 s =
     (case s of
        [] \<Rightarrow> None
      | c # cs \<Rightarrow>
        if c = CHR ''-'' then
          (if cs = [] then None
           else case digits_value 0 cs of
                  None \<Rightarrow> None
                | Some n \<Rightarrow> if n \<le> 9223372036854775808 then Some (word_of_int (- int n)) else None)
        else
          (case digits_value 0 s of
             None \<Rightarrow> None
           | Some n \<Rightarrow> if n < 9223372036854775808 then Some (word_of_nat n) else None))"

subsection \<open>The codec\<close>

fun put_uvarint :: "nat \<Rightarrow> bytes" where
  "put_uvarint n =
     (if n < 128 then [char_of n] else char_of (128 + n mod 128) # put_uvarint (n div 128))"

fun get_uvarint :: "bytes \<Rightarrow> (nat \<times> bytes) option" where
  "get_uvarint [] = None"
| "get_uvarint (c # cs) =
     (if (of_char c :: nat) < 128 then Some (of_char c, cs)
      else case get_uvarint cs of
             None \<Rightarrow> None
           | Some (n, r) \<Rightarrow> Some (of_char c - 128 + 128 * n, r))"

text \<open>
  Modelled from the spec: the codec of section 4.1 (the snappy library is not under src/):
  a pair \<open>compress\<close>, \<open>decompress\<close> where \<open>decompress\<close> fails with a decode error on data
  that \<open>compress\<close> did not produce, truncated data included. The instance stores the
  payload behind its length and checks the length on the way back; it stands for the
  library only where a theorem is applied to a concrete message.
\<close>

definition compress :: "bytes \<Rightarrow> bytes" where
  "compress x = put_uvarint (length x) @ x"

definition decompress :: "bytes \<Rightarrow> error + bytes" where
  "decompress b =
     (case get_uvarint b of
        None \<Rightarrow> Inl ErrCorrupt
      | Some (n, r) \<Rightarrow> if length r = n then Inr r else Inl ErrCorrupt)"

subsection \<open>Looking a key up in a JSON object\<close>

definition is_space :: "char \<Rightarrow> bool" where
  "is_space c = (c = CHR '' '' \<or> c = CHR 0x09 \<or> c = CHR 0x0A \<or> c = CHR 0x0D)"

definition trim :: "string \<Rightarrow> string" where
  "trim s = rev (dropWhile is_space (rev (dropWhile is_space s)))"

text \<open>
  The pieces of a text between the occurrences of a separator that stand outside every
  string and every bracket. \<open>d\<close> counts the open brackets, \<open>q\<close> says that the scan is
  inside a string and \<open>e\<close> that the last character was a backslash there; \<open>cur\<close> holds the
  current piece, reversed.
\<close>

fun split_top :: "char \<Rightarrow> nat \<Rightarrow> bool \<Rightarrow> bool \<Rightarrow> string \<Rightarrow> string \<Rightarrow> string list" where
  "split_top sep d q e cur [] = [rev cur]"
| "split_top sep d q e cur (c # cs) =
     (if q then
        (if e then split_top sep d True False (c # cur) cs
         else if c = CHR 0x5C then split_top sep d True True (c # cur) cs
         else if c = CHR 0x22 then split_top sep d False False (c # cur) cs
         else split_top sep d True False (c # cur) cs)
      else if c = CHR 0x22 then split_top sep d True False (c # cur) cs
      else if c = CHR ''['' \<or> c = CHR ''{'' then split_top sep (Suc d) False False (c # cur) cs
      else if c = CHR '']'' \<or> c = CHR ''}'' then split_top sep (d - 1) False False (c # cur) cs
      else if c = sep \<and> d = 0 then rev cur # split_top sep 0 False False [] cs
      else split_top sep d False False (c # cur) cs)"

definition pieces :: "char \<Rightarrow> string \<Rightarrow> string list" where
  "pieces sep s = (if trim s = [] then [] else map trim (split_top sep 0 False False [] s))"

definition enclosed :: "char \<Rightarrow> char \<Rightarrow> string \<Rightarrow> bool" where
  "enclosed l r s = (2 \<le> length s \<and> hd s = l \<and> last s = r)"

definition inside :: "string \<Rightarrow> string" where
  "inside s = butlast (tl s)"

text \<open>One member \<^verbatim>\<open>"key": value\<close> of an object, as the key and the text of the value.\<close>

definition member :: "string \<Rightarrow> (string \<times> string) option" where
  "member p =
     (case pieces CHR '':'' p of
        [k, v] \<Rightarrow> if enclosed (CHR 0x22) (CHR 0x22) k then Some (inside k, v) else None
      | _ \<Rightarrow> None)"

definition members :: "bytes \<Rightarrow> (string \<times> string) list option" where
  "members data =
     (let t = trim data in
      if enclosed CHR ''{'' CHR ''}'' t
      then Some (List.map_filter member (pieces CHR '','' (inside t)))
      else None)"

text \<open>The text of a value with its type; a string comes without its quotes.\<close>

definition typed_value :: "string \<Rightarrow> error + bytes \<times> ValueType" where
  "typed_value v =
     (case v of
        [] \<Rightarrow> Inl MalformedJsonError
      | c # _ \<Rightarrow>
        if c = CHR 0x22 then
          (if enclosed (CHR 0x22) (CHR 0x22) v then Inr (inside v, String)
           else Inl MalformedStringError)
        else if c = CHR ''['' then
          (if enclosed CHR ''['' CHR '']'' v then Inr (v, Array) else Inl MalformedArrayError)
        else if c = CHR ''{'' then
          (if enclosed CHR ''{'' CHR ''}'' v then Inr (v, Object) else Inl MalformedObjectError)
        else if v = ''true'' \<or> v = ''false'' then Inr (v, Boolean)
        else if v = ''null'' then Inr (v, Null)
        else if c = CHR ''-'' \<or> digit_val c \<noteq> None then Inr (v, Number)
        else Inl UnknownValueTypeError)"

text \<open>
  Modelled from the spec: \<^verbatim>\<open>jsonparser.Get\<close> with one key (the library is not under
  src/). Section 4.4 has the merge parse the payload as a JSON object and locate a
  top-level field, which may be absent; section 6 gives the message as an object with
  integer fields and an array field among others. The instance returns the text of the
  value of the first member that has the key, of whatever type the value is, and the type
  beside it: \<^verbatim>\<open>concatRowsToJSON\<close> receives that type and drops it.
\<close>

definition Get :: "bytes \<Rightarrow> string \<Rightarrow> error + bytes \<times> ValueType" where
  "Get data key =
     (case members data of
        None \<Rightarrow> Inl KeyPathNotFoundError
      | Some ms \<Rightarrow>
        (case map_of ms key of
           None \<Rightarrow> Inl KeyPathNotFoundError
         | Some v \<Rightarrow> typed_value v))"

text \<open>
  Modelled from the spec: \<^verbatim>\<open>jsonparser.GetInt\<close> (not under src/). Section 4.3 has
  \<^verbatim>\<open>regionID\<close> and \<^verbatim>\<open>typeID\<close> extracted as required integer fields, a missing or
  non-integer field being a validation failure.
\<close>

definition GetInt :: "bytes \<Rightarrow> string \<Rightarrow> error + int64" where
  "GetInt data key =
     (case Get data key of
        Inl err \<Rightarrow> Inl err
      | Inr (v, ty) \<Rightarrow>
        if ty \<noteq> Number then Inl ValueIsNotANumber
        else (case parse_int64 v of None \<Rightarrow> Inl MalformedValueError | Some n \<Rightarrow> Inr n))"

definition lib :: env where
  "lib = \<lparr>snappy_Encode = compress, snappy_Decode = decompress,
          jsonparser_GetInt = GetInt, jsonparser_Get = Get, pg_int8 = parse_int64\<rparr>"

definition empty_db :: db where
  "empty_db = \<lparr>table = [], open_txs = 0\<rparr>"

section \<open>Notions the statements use\<close>

text \<open>Texts joined with one comma between neighbours.\<close>

fun join_comma :: "bytes list \<Rightarrow> bytes" where
  "join_comma [] = []"
| "join_comma [x] = x"
| "join_comma (x # y # ys) = x @ '','' @ join_comma (y # ys)"

text \<open>
  What the loop of \<^verbatim>\<open>concatRowsToJSON\<close> gets out of one row before it splices: the
  value of \<^verbatim>\<open>orders\<close> in the decompressed payload, or the error of the first of
  \<^verbatim>\<open>rows.Scan\<close>, \<^verbatim>\<open>snappy.Decode\<close> and \<^verbatim>\<open>jsonparser.Get\<close> that fails.
\<close>

definition row_orders :: "env \<Rightarrow> error + bytes \<Rightarrow> error + bytes" where
  "row_orders E row =
     (case row of
        Inl err \<Rightarrow> Inl err
      | Inr m \<Rightarrow>
        (case snappy_Decode E m of
           Inl err \<Rightarrow> Inl err
         | Inr d \<Rightarrow>
           (case jsonparser_Get E d ''orders'' of
              Inl err \<Rightarrow> Inl err
            | Inr (v, _) \<Rightarrow> Inr v)))"

text \<open>
  The part the three handlers share word for word, from the result of \<^verbatim>\<open>tx.Query\<close> on.
\<close>

definition respond :: "env \<Rightarrow> faults \<Rightarrow> tx \<Rightarrow> db \<Rightarrow> error + sql_rows \<Rightarrow> reply \<times> db" where
  "respond E F t s1 q =
     (case q of
        Inl err \<Rightarrow> (AbortWithError 500 err, s1)
      | Inr rows \<Rightarrow>
        (case concatRowsToJSON E rows of
           Err err \<Rightarrow> (AbortWithError 404 err, s1)
         | Panic \<Rightarrow> (HandlerPanic, s1)
         | Ok r \<Rightarrow>
           (case tx_Commit F t s1 of
              (Some err, s2) \<Rightarrow> (AbortWithError 500 err, s2)
            | (None, s2) \<Rightarrow> (Data r, s2))))"

text \<open>The status code a client receives, if it receives a response at all.\<close>

definition status_of :: "reply \<Rightarrow> nat option" where
  "status_of rep = (case rep of Reply r \<Rightarrow> Some (status r) | HandlerPanic \<Rightarrow> None)"

text \<open>
  The element texts of an array literal: the pieces of its inside between the commas that
  stand outside every string and bracket, none for a blank inside.
\<close>

definition elements :: "bytes \<Rightarrow> bytes list" where
  "elements a = pieces CHR '','' (inside a)"

text \<open>A run in which the store fails at none of begin, statement and commit.\<close>

definition store_works :: "faults \<Rightarrow> bool" where
  "store_works F = (begin_err F = None \<and> exec_err F = None \<and> commit_err F = None)"

text \<open>
  Two conditions on a row that the loop reaches. It is spliced when all three steps succeed
  on it and the value of \<^verbatim>\<open>orders\<close> has the two bytes that the slice expression takes
  off. It fails when \<^verbatim>\<open>rows.Scan\<close> fails on it, or its payload does not decompress, or
  \<^verbatim>\<open>jsonparser.Get\<close> returns an error for \<^verbatim>\<open>orders\<close> in the decompressed payload
  (the field is missing or cannot be read).
\<close>

definition splices :: "env \<Rightarrow> error + bytes \<Rightarrow> bool" where
  "splices E row = (case row_orders E row of Inl _ \<Rightarrow> False | Inr v \<Rightarrow> 2 \<le> length v)"

definition row_fails :: "env \<Rightarrow> error + bytes \<Rightarrow> bool" where
  "row_fails E row =
     (case row of
        Inl _ \<Rightarrow> True
      | Inr m \<Rightarrow>
        (case snappy_Decode E m of
           Inl _ \<Rightarrow> True
         | Inr d \<Rightarrow> isl (jsonparser_Get E d ''orders'')))"

text \<open>
  The status mapping of a query handler, for the result \<open>q\<close> of its \<^verbatim>\<open>tx.Query\<close> and
  its reply \<open>rep\<close>, from the conditions of the run to the status and back.
  \<^item> A failing begin gives 500, and so does a failing query.
  \<^item> A row that fails, reached after rows that are all spliced, gives 404.
  \<^item> When every row reached is spliced, a failing commit gives 500, and otherwise the
    reply is status 200 with the array spliced from the rows' values in their order.
  \<^item> Status 500 comes only with a failure of begin, query or commit; status 404 comes only
    with a row that fails; and there is no status but 200, 404 and 500.
\<close>

definition query_statuses :: "env \<Rightarrow> faults \<Rightarrow> error + sql_rows \<Rightarrow> reply \<Rightarrow> bool" where
  "query_statuses E F q rep =
     ((begin_err F \<noteq> None \<longrightarrow> status_of rep = Some 500) \<and>
      (begin_err F = None \<and> isl q \<longrightarrow> status_of rep = Some 500) \<and>
      (\<forall>rows. begin_err F = None \<and> q = Inr rows \<longrightarrow>
         (\<forall>pre row post.
            rows = pre @ row # post \<and> list_all (splices E) pre \<and> row_fails E row \<longrightarrow>
            status_of rep = Some 404) \<and>
         (list_all (splices E) rows \<and> commit_err F \<noteq> None \<longrightarrow> status_of rep = Some 500) \<and>
         (list_all (splices E) rows \<and> commit_err F = None \<longrightarrow>
            (\<exists>vs. map (row_orders E) rows = map Inr vs \<and>
                  rep = Data (''['' @ join_comma (map inside vs) @ '']'')))) \<and>
      (status_of rep = Some 500 \<longrightarrow>
         begin_err F \<noteq> None \<or> isl q \<or> commit_err F \<noteq> None) \<and>
      (status_of rep = Some 404 \<longrightarrow>
         begin_err F = None \<and> (\<exists>rows row. q = Inr rows \<and> row \<in> set rows \<and> row_fails E row)) \<and>
      (\<forall>c. status_of rep = Some c \<longrightarrow> c = 200 \<or> c = 404 \<or> c = 500))"

text \<open>Runs of the store used as concrete inputs, and a store holding one row.\<close>

definition begin_fails :: faults where
  "begin_fails = no_faults\<lparr>begin_err := Some ErrBadConn\<rparr>"

definition commit_fails :: faults where
  "commit_fails = no_faults\<lparr>commit_err := Some ErrBadConn\<rparr>"

definition scan_fails :: faults where
  "scan_fails = no_faults\<lparr>scan_err := (\<lambda>_. Some ErrScan)\<rparr>"

definition fetch_fails :: faults where
  "fetch_fails = no_faults\<lparr>next_err := (\<lambda>i. if i = 1 then Some ErrBadConn else None)\<rparr>"

text \<open>
  Messages and stores used as concrete inputs: a message with an array, one without
  \<^verbatim>\<open>orders\<close>, one with a number there; a store holding the first two, one holding a
  payload that is no output of the codec, and one holding the third.
\<close>

definition good_msg :: bytes where
  \<open>good_msg = ''{"regionID":1,"typeID":2,"orders":[7]}''\<close>

definition bare_msg :: bytes where
  \<open>bare_msg = ''{"regionID":1,"typeID":3}''\<close>

definition number_msg :: bytes where
  \<open>number_msg = ''{"regionID":1,"typeID":2,"orders":123}''\<close>

definition mixed_db :: db where
  "mixed_db =
     \<lparr>table = [\<lparr>col_regionID = 1, col_typeID = 2, col_market = compress good_msg\<rparr>,
               \<lparr>col_regionID = 1, col_typeID = 3, col_market = compress bare_msg\<rparr>],
      open_txs = 0\<rparr>"

definition corrupt_db :: db where
  "corrupt_db =
     \<lparr>table = [\<lparr>col_regionID = 1, col_typeID = 2, col_market = ''abc''\<rparr>], open_txs = 0\<rparr>"

definition number_db :: db where
  "number_db =
     \<lparr>table = [\<lparr>col_regionID = 1, col_typeID = 2, col_market = compress number_msg\<rparr>],
      open_txs = 0\<rparr>"

definition no_orders_db :: db where
  \<open>no_orders_db =
     \<lparr>table = [\<lparr>col_regionID = 1, col_typeID = 2,
                 col_market = compress ''{"regionID":1,"typeID":2}''\<rparr>],
      open_txs = 0\<rparr>\<close>

text \<open>The message of the end-to-end scenario of the spec, and the array it carries.\<close>

definition scenario_msg :: bytes where
  \<open>scenario_msg = ''{"regionID":10000002,"typeID":34,"orders":[{"price":5.5}]}''\<close>

definition scenario_orders :: bytes where
  \<open>scenario_orders = ''[{"price":5.5}]''\<close>

text \<open>
  Two messages of one type, the second with an empty array, and the store after both were
  ingested.
\<close>

definition full_msg :: bytes where
  \<open>full_msg = ''{"regionID":1,"typeID":34,"orders":[{"price":5.5}]}''\<close>

definition empty_msg :: bytes where
  \<open>empty_msg = ''{"regionID":2,"typeID":34,"orders":[]}''\<close>

definition two_rows_db :: db where
  "two_rows_db =
     \<lparr>table = [\<lparr>col_regionID = 1, col_typeID = 34, col_market = compress full_msg\<rparr>,
               \<lparr>col_regionID = 2, col_typeID = 34, col_market = compress empty_msg\<rparr>],
      open_txs = 0\<rparr>"

text \<open>An array literal written from the texts of its elements.\<close>

definition array_text :: "bytes list \<Rightarrow> bytes" where
  "array_text es = ''['' @ join_comma es @ '']''"

section \<open>The merge splices the rows in order\<close>

lemma slice_inside:
  "slice v 1 (int (length v) - 1) = (if 2 \<le> length v then Some (inside v) else None)"
  by (auto simp: slice_def inside_def butlast_conv_take drop_Suc nat_diff_distrib' tl_drop take_tl)

lemma concat_loop_step:
  "concat_loop E acc (row # rows) =
     (case row_orders E row of
        Inl err \<Rightarrow> Err err
      | Inr v \<Rightarrow>
          if 2 \<le> length v then concat_loop E (acc @ inside v @ '','') rows else Panic)"
  by (simp add: row_orders_def slice_inside split: sum.splits prod.splits)

lemma concat_loop_Ok:
  "concat_loop E acc rows = Ok out \<longleftrightarrow>
     (\<exists>vs. map (row_orders E) rows = map Inr vs \<and> list_all (\<lambda>v. 2 \<le> length v) vs \<and>
           out = acc @ concat (map (\<lambda>v. inside v @ '','') vs))"
proof (induction rows arbitrary: acc)
  case Nil
  then show ?case by auto
next
  case (Cons row rows)
  show ?case
  proof (cases "row_orders E row")
    case (Inr v)
    show ?thesis
    proof (cases "2 \<le> length v")
      case True
      have "concat_loop E acc (row # rows) = concat_loop E (acc @ inside v @ '','') rows"
        using Inr True by (simp add: concat_loop_step del: concat_loop.simps)
      then show ?thesis
        using Cons.IH [of "acc @ inside v @ '',''"] Inr True
        apply (simp del: concat_loop.simps)
        apply (rule iffI)
         apply (elim exE conjE)
        subgoal for vs by (rule exI [of _ "v # vs"]) simp
        apply (elim exE conjE)
        subgoal for vs by (cases vs) auto
        done
    next
      case False
      then show ?thesis
        using Inr by (auto simp: concat_loop_step simp del: concat_loop.simps)
    qed
  next
    case (Inl e)
    then show ?thesis by (auto simp: concat_loop_step simp del: concat_loop.simps)
  qed
qed

lemma butlast_commas:
  "xs \<noteq> [] \<Longrightarrow> butlast (concat (map (\<lambda>x. x @ '','') xs)) = join_comma xs"
proof (induction xs rule: join_comma.induct)
  case 1
  then show ?case by simp
next
  case (2 x)
  then show ?case by simp
next
  case (3 x y ys)
  then show ?case by (simp add: butlast_append)
qed

lemma strip_last_comma:
  assumes "r = ''['' @ concat (map (\<lambda>v. inside v @ '','') vs)"
  shows "(if 1 < length r then take (length r - 1) r else r) @ '']'' =
         ''['' @ join_comma (map inside vs) @ '']''"
proof (cases "vs = []")
  case True
  then show ?thesis using assms by simp
next
  case False
  then have ne: "concat (map (\<lambda>v. inside v @ '','') vs) \<noteq> []"
    by (cases vs) auto
  then have "butlast r = ''['' @ butlast (concat (map (\<lambda>x. x @ '','') (map inside vs)))"
    using assms by (simp add: butlast_append comp_def)
  moreover have "1 < length r"
    using ne assms by (cases "concat (map (\<lambda>v. inside v @ '','') vs)") auto
  ultimately show ?thesis
    using False butlast_commas [of "map inside vs"] by (simp add: butlast_conv_take)
qed

lemma concatRowsToJSON_Ok:
  "concatRowsToJSON E rows = Ok out \<longleftrightarrow>
     (\<exists>vs. map (row_orders E) rows = map Inr vs \<and> list_all (\<lambda>v. 2 \<le> length v) vs \<and>
           out = ''['' @ join_comma (map inside vs) @ '']'')"
proof
  assume "concatRowsToJSON E rows = Ok out"
  then obtain r where r: "concat_loop E ''['' rows = Ok r"
    and out: "out = (if 1 < length r then take (length r - 1) r else r) @ '']''"
    by (auto simp: concatRowsToJSON_def split: result.splits)
  from r obtain vs where vs: "map (row_orders E) rows = map Inr vs"
    "list_all (\<lambda>v. 2 \<le> length v) vs" "r = ''['' @ concat (map (\<lambda>v. inside v @ '','') vs)"
    unfolding concat_loop_Ok by blast
  show "\<exists>vs. map (row_orders E) rows = map Inr vs \<and> list_all (\<lambda>v. 2 \<le> length v) vs \<and>
         out = ''['' @ join_comma (map inside vs) @ '']''"
    using vs out strip_last_comma [OF vs(3)] by blast
next
  assume "\<exists>vs. map (row_orders E) rows = map Inr vs \<and> list_all (\<lambda>v. 2 \<le> length v) vs \<and>
         out = ''['' @ join_comma (map inside vs) @ '']''"
  then obtain vs where vs: "map (row_orders E) rows = map Inr vs"
    "list_all (\<lambda>v. 2 \<le> length v) vs" "out = ''['' @ join_comma (map inside vs) @ '']''"
    by blast
  define r where "r = ''['' @ concat (map (\<lambda>v. inside v @ '','') vs)"
  have "concat_loop E ''['' rows = Ok r"
    unfolding concat_loop_Ok r_def using vs by blast
  then show "concatRowsToJSON E rows = Ok out"
    using strip_last_comma [OF r_def] vs(3) by (simp add: concatRowsToJSON_def)
qed

lemma join_comma_append:
  "xs \<noteq> [] \<Longrightarrow> ys \<noteq> [] \<Longrightarrow> join_comma (xs @ ys) = join_comma xs @ '','' @ join_comma ys"
proof (induction xs rule: join_comma.induct)
  case 1
  then show ?case by simp
next
  case (2 x)
  then show ?case by (cases ys) simp_all
next
  case (3 x y zs)
  then show ?case by simp
qed

lemma join_comma_groups:
  "list_all (\<lambda>es. es \<noteq> []) ess \<Longrightarrow> join_comma (map join_comma ess) = join_comma (concat ess)"
proof (induction ess)
  case Nil
  then show ?case by simp
next
  case (Cons es ess)
  show ?case
  proof (cases ess)
    case Nil
    then show ?thesis by simp
  next
    case (Cons fs fss)
    then have "concat ess \<noteq> []" using Cons.prems by auto
    then show ?thesis
      using Cons.prems Cons.IH Cons by (simp add: join_comma_append)
  qed
qed

lemma inside_array_text: "inside (array_text es) = join_comma es"
  by (simp add: array_text_def inside_def butlast_append)

section \<open>Facts about the instance\<close>

lemma get_put_uvarint: "get_uvarint (put_uvarint n @ r) = Some (n, r)"
proof (induction n rule: put_uvarint.induct)
  case (1 n)
  show ?case
  proof (cases "n < 128")
    case True
    then show ?thesis by simp
  next
    case False
    have "128 + n mod 128 < 256"
    proof -
      have "n mod 128 < 128" by (rule mod_less_divisor) (rule zero_less_numeral)
      then show ?thesis by linarith
    qed
    then have "(of_char (char_of (128 + n mod 128)) :: nat) = 128 + n mod 128"
      by (simp only: of_char_of mod_less)
    with False 1 show ?thesis
      by (subst put_uvarint.simps) (simp del: put_uvarint.simps)
  qed
qed

lemma decompress_compress: "decompress (compress x) = Inr x"
  by (simp add: compress_def decompress_def get_put_uvarint del: put_uvarint.simps)

lemmas json_eval =
  Get_def GetInt_def members_def member_def pieces_def trim_def is_space_def enclosed_def
  inside_def typed_value_def List.map_filter_def parse_int64_def digit_val_def

lemma lib_fields [simp]:
  "snappy_Encode lib = compress" "snappy_Decode lib = decompress"
  "jsonparser_GetInt lib = GetInt" "jsonparser_Get lib = Get" "pg_int8 lib = parse_int64"
  by (simp_all add: lib_def)

lemma no_faults_fields [simp]:
  "begin_err no_faults = None" "exec_err no_faults = None" "next_err no_faults i = None"
  "scan_err no_faults i = None"
  "commit_err no_faults = None"
  by (simp_all add: no_faults_def)

lemma row_orders_lib:
  "row_orders lib (Inr (compress d)) =
     (case Get d ''orders'' of Inl e \<Rightarrow> Inl e | Inr (v, _) \<Rightarrow> Inr v)"
  by (simp add: row_orders_def decompress_compress)

section \<open>The handlers through their shared part\<close>

lemma getRegion_respond:
  "getRegion E F s regionID =
     (case db_Begin F s of
        Inl err \<Rightarrow> (AbortWithError 500 err, s)
      | Inr (t, s1) \<Rightarrow> respond E F t s1 (tx_Query_region E F t regionID))"
  by (simp add: getRegion_def respond_def split: sum.splits)

lemma getType_respond:
  "getType E F s typeID =
     (case db_Begin F s of
        Inl err \<Rightarrow> (AbortWithError 500 err, s)
      | Inr (t, s1) \<Rightarrow> respond E F t s1 (tx_Query_type E F t typeID))"
  by (simp add: getType_def respond_def split: sum.splits)

lemma getRegionType_respond:
  "getRegionType E F s regionID typeID =
     (case db_Begin F s of
        Inl err \<Rightarrow> (AbortWithError 500 err, s)
      | Inr (t, s1) \<Rightarrow> respond E F t s1 (tx_Query_region_type E F t regionID typeID))"
  by (simp add: getRegionType_def respond_def split: sum.splits)

section \<open>The claims\<close>

subsection \<open>Order of the merged elements\<close>

text \<open>
  Claim C10. Whenever \<^verbatim>\<open>concatRowsToJSON\<close> returns an output, every row has given a value
  for \<^verbatim>\<open>orders\<close>, and the output is an opening bracket, then the inside of each row's
  value as one unbroken group, the groups in the order the rows were iterated with one comma
  between neighbours, then a closing bracket. Where the values are array literals written
  from their elements, the group of a row is its elements in their order with commas
  between them: the elements of a row stay together and in order, and nothing of one row
  stands between the elements of another.
\<close>

theorem merge_groups_rows_in_order:
  assumes "concatRowsToJSON E rows = Ok out"
  shows "\<exists>vs. map (row_orders E) rows = map Inr vs \<and>
              out = ''['' @ join_comma (map inside vs) @ '']'' \<and>
              (\<forall>ess. vs = map array_text ess \<longrightarrow>
                     out = ''['' @ join_comma (map join_comma ess) @ '']'')"
proof -
  obtain vs where vs: "map (row_orders E) rows = map Inr vs"
    and out: "out = ''['' @ join_comma (map inside vs) @ '']''"
    using assms unfolding concatRowsToJSON_Ok by blast
  have "out = ''['' @ join_comma (map join_comma ess) @ '']''" if "vs = map array_text ess" for ess
  proof -
    have "map inside vs = map join_comma ess"
      using that by (simp add: inside_array_text comp_def)
    then show ?thesis using out by (simp only:)
  qed
  with vs out show ?thesis by blast
qed

theorem merge_groups_rows_in_order_witness:
  \<open>concatRowsToJSON lib [Inr (compress ''{"orders":[1,2]}''), Inr (compress ''{"orders":[3]}'')]
     = Ok ''[1,2,3]'' \<and>
   map (row_orders lib) [Inr (compress ''{"orders":[1,2]}''), Inr (compress ''{"orders":[3]}'')]
     = map Inr (map array_text [[''1'', ''2''], [''3'']]) \<and>
   ''[1,2,3]'' = ''['' @ join_comma (map join_comma [[''1'', ''2''], [''3'']]) @ '']''\<close>
proof -
  have a: \<open>Get ''{"orders":[1,2]}'' ''orders'' = Inr (''[1,2]'', Array)\<close>
    by (simp add: json_eval)
  have b: \<open>Get ''{"orders":[3]}'' ''orders'' = Inr (''[3]'', Array)\<close>
    by (simp add: json_eval)
  have h: \<open>concatRowsToJSON lib
             [Inr (compress ''{"orders":[1,2]}''), Inr (compress ''{"orders":[3]}'')]
           = Ok ''[1,2,3]''\<close>
    by (simp add: concatRowsToJSON_def concat_loop_step row_orders_lib a b inside_def
        del: concat_loop.simps(2))
  have r: \<open>map (row_orders lib)
             [Inr (compress ''{"orders":[1,2]}''), Inr (compress ''{"orders":[3]}'')]
           = map Inr (map array_text [[''1'', ''2''], [''3'']])\<close>
    by (simp add: row_orders_lib a b array_text_def)
  obtain vs where vs: \<open>map (row_orders lib)
        [Inr (compress ''{"orders":[1,2]}''), Inr (compress ''{"orders":[3]}'')] = map Inr vs\<close>
    and el: "\<forall>ess. vs = map array_text ess \<longrightarrow>
               ''[1,2,3]'' = ''['' @ join_comma (map join_comma ess) @ '']''"
    using merge_groups_rows_in_order [OF h] by blast
  have "map Inr vs = (map Inr (map array_text [[''1'', ''2''], [''3'']]) :: (error + bytes) list)"
    using vs r by (simp only:)
  then have "vs = map array_text [[''1'', ''2''], [''3'']]"
    by (simp only: inj_map_eq_map inj_Inr)
  then have "''[1,2,3]'' = ''['' @ join_comma (map join_comma [[''1'', ''2''], [''3'']]) @ '']''"
    using el by blast
  then show ?thesis
    using h r by (simp only: simp_thms)
qed

subsection \<open>A rejected message\<close>

text \<open>
  Claim C9. When \<^verbatim>\<open>jsonparser.GetInt\<close> returns an error for \<^verbatim>\<open>regionID\<close> or for
  \<^verbatim>\<open>typeID\<close> (the field is missing or is not an integer), \<^verbatim>\<open>handleMessage\<close> returns
  an error, so the message is not acknowledged, and the store is exactly as it was: no
  transaction was begun and the table is untouched, whatever the store would have done.
\<close>

theorem rejected_message_leaves_store:
  assumes "isl (jsonparser_GetInt E msg ''regionID'') \<or> isl (jsonparser_GetInt E msg ''typeID'')"
  shows "\<exists>err. handleMessage E F s msg = (Some err, s)"
  using assms by (auto simp: handleMessage_def isl_def split: sum.splits)

theorem rejected_message_leaves_store_witness:
  \<open>(isl (jsonparser_GetInt lib ''{"regionID":"x","typeID":34,"orders":[]}'' ''regionID'') \<or>
    isl (jsonparser_GetInt lib ''{"regionID":"x","typeID":34,"orders":[]}'' ''typeID'')) \<and>
   (\<exists>err. handleMessage lib no_faults empty_db ''{"regionID":"x","typeID":34,"orders":[]}''
           = (Some err, empty_db))\<close>
proof -
  have h: \<open>isl (jsonparser_GetInt lib ''{"regionID":"x","typeID":34,"orders":[]}'' ''regionID'') \<or>
    isl (jsonparser_GetInt lib ''{"regionID":"x","typeID":34,"orders":[]}'' ''typeID'')\<close>
    by (simp add: json_eval)
  show ?thesis
    using h rejected_message_leaves_store [OF h, of no_faults empty_db] by simp
qed

subsection \<open>The upsert\<close>

lemma upsert_keys: "row_key ` set (upsert r t m tbl) = insert (r, t) (row_key ` set tbl)"
  by (induction tbl) (auto simp: row_key_def)

lemma upsert_primary_key: "primary_key tbl \<Longrightarrow> primary_key (upsert r t m tbl)"
proof (induction tbl)
  case Nil
  then show ?case by (simp add: primary_key_def)
next
  case (Cons x xs)
  then have IH: "primary_key (upsert r t m xs)" and x: "row_key x \<notin> row_key ` set xs"
    by (simp_all add: primary_key_def)
  show ?case
  proof (cases "col_regionID x = r \<and> col_typeID x = t")
    case True
    then show ?thesis using Cons.prems by (simp add: primary_key_def row_key_def)
  next
    case False
    then have "row_key x \<noteq> (r, t)" by (auto simp: row_key_def)
    then have "row_key x \<notin> row_key ` set (upsert r t m xs)"
      using x unfolding upsert_keys by simp
    moreover have "upsert r t m (x # xs) = x # upsert r t m xs"
      using False by auto
    ultimately show ?thesis using IH by (simp add: primary_key_def del: upsert.simps)
  qed
qed

lemma filter_upsert:
  "primary_key tbl \<Longrightarrow>
   filter (\<lambda>x. row_key x = (r, t)) (upsert r t m tbl) =
     [\<lparr>col_regionID = r, col_typeID = t, col_market = m\<rparr>]"
proof (induction tbl)
  case Nil
  then show ?case by (simp add: row_key_def)
next
  case (Cons x xs)
  then have x: "row_key x \<notin> row_key ` set xs" and pk: "primary_key xs"
    by (simp_all add: primary_key_def)
  show ?case
  proof (cases "col_regionID x = r \<and> col_typeID x = t")
    case True
    then have "(r, t) \<notin> row_key ` set xs" using x by (simp add: row_key_def)
    then have "filter (\<lambda>x. row_key x = (r, t)) xs = []"
      unfolding filter_empty_conv by (metis imageI)
    then show ?thesis using True by (cases x) (simp add: row_key_def)
  next
    case False
    then show ?thesis using Cons.IH [OF pk] by (auto simp: row_key_def)
  qed
qed

lemma handleMessage_commits:
  assumes "jsonparser_GetInt E msg ''regionID'' = Inr r"
    and "jsonparser_GetInt E msg ''typeID'' = Inr t"
    and "store_works F"
  shows "handleMessage E F s msg =
           (None, s\<lparr>table := upsert r t (snappy_Encode E msg) (table s)\<rparr>)"
  using assms
  by (simp add: handleMessage_def store_works_def db_Begin_def tx_Exec_def tx_Commit_def)

text \<open>
  Claim C5. Take a table that satisfies its primary key, two message bodies \<open>P1\<close> and
  \<open>P2\<close> in which the library reads the same \<^verbatim>\<open>regionID\<close> and \<^verbatim>\<open>typeID\<close>, and two runs
  of \<^verbatim>\<open>handleMessage\<close> in which the store does not fail, first on \<open>P1\<close> and then on
  \<open>P2\<close>. Both runs return no error, and afterwards the table holds exactly one row of that
  key, whose payload is the compressed \<open>P2\<close>; it decompresses to \<open>P2\<close> as soon as the codec
  gives \<open>P2\<close> back, which is the law of the codec at \<open>P2\<close>.
\<close>

theorem upsert_twice_last_write_wins:
  assumes "primary_key (table s)"
    and "jsonparser_GetInt E P1 ''regionID'' = Inr r" and "jsonparser_GetInt E P1 ''typeID'' = Inr t"
    and "jsonparser_GetInt E P2 ''regionID'' = Inr r" and "jsonparser_GetInt E P2 ''typeID'' = Inr t"
    and "snappy_Decode E (snappy_Encode E P2) = Inr P2"
    and "store_works F1" and "store_works F2"
  shows "\<exists>s1 s2 row.
           handleMessage E F1 s P1 = (None, s1) \<and> handleMessage E F2 s1 P2 = (None, s2) \<and>
           filter (\<lambda>x. row_key x = (r, t)) (table s2) = [row] \<and>
           col_market row = snappy_Encode E P2 \<and>
           snappy_Decode E (col_market row) = Inr P2"
proof -
  define s1 where "s1 = s\<lparr>table := upsert r t (snappy_Encode E P1) (table s)\<rparr>"
  define s2 where "s2 = s1\<lparr>table := upsert r t (snappy_Encode E P2) (table s1)\<rparr>"
  have 1: "handleMessage E F1 s P1 = (None, s1)"
    unfolding s1_def using assms(2,3,7) by (rule handleMessage_commits)
  have 2: "handleMessage E F2 s1 P2 = (None, s2)"
    unfolding s2_def using assms(4,5,8) by (rule handleMessage_commits)
  have "primary_key (table s1)"
    using assms(1) by (simp add: s1_def upsert_primary_key)
  then have 3: "filter (\<lambda>x. row_key x = (r, t)) (table s2) =
      [\<lparr>col_regionID = r, col_typeID = t, col_market = snappy_Encode E P2\<rparr>]"
    by (simp add: s2_def filter_upsert)
  show ?thesis
    using 1 2 3 assms(6) by simp
qed

lemma store_works_no_faults [simp]: "store_works no_faults"
  by (simp add: store_works_def)

theorem upsert_twice_last_write_wins_witness:
  \<open>primary_key (table empty_db) \<and>
   jsonparser_GetInt lib ''{"regionID":1,"typeID":2,"orders":[7]}'' ''regionID'' = Inr 1 \<and>
   jsonparser_GetInt lib ''{"regionID":1,"typeID":2,"orders":[7]}'' ''typeID'' = Inr 2 \<and>
   jsonparser_GetInt lib ''{"regionID":1,"typeID":2,"orders":[8,9]}'' ''regionID'' = Inr 1 \<and>
   jsonparser_GetInt lib ''{"regionID":1,"typeID":2,"orders":[8,9]}'' ''typeID'' = Inr 2 \<and>
   snappy_Decode lib (snappy_Encode lib ''{"regionID":1,"typeID":2,"orders":[8,9]}'')
     = Inr ''{"regionID":1,"typeID":2,"orders":[8,9]}'' \<and>
   store_works no_faults \<and>
   (\<exists>s1 s2 row.
      handleMessage lib no_faults empty_db ''{"regionID":1,"typeID":2,"orders":[7]}'' = (None, s1) \<and>
      handleMessage lib no_faults s1 ''{"regionID":1,"typeID":2,"orders":[8,9]}'' = (None, s2) \<and>
      filter (\<lambda>x. row_key x = (1, 2)) (table s2) = [row] \<and>
      col_market row = snappy_Encode lib ''{"regionID":1,"typeID":2,"orders":[8,9]}'' \<and>
      snappy_Decode lib (col_market row) = Inr ''{"regionID":1,"typeID":2,"orders":[8,9]}'')\<close>
proof -
  have pk: "primary_key (table empty_db)"
    by (simp add: primary_key_def empty_db_def)
  have a: \<open>jsonparser_GetInt lib ''{"regionID":1,"typeID":2,"orders":[7]}'' ''regionID'' = Inr 1\<close>
    by (simp add: json_eval)
  have b: \<open>jsonparser_GetInt lib ''{"regionID":1,"typeID":2,"orders":[7]}'' ''typeID'' = Inr 2\<close>
    by (simp add: json_eval)
  have c: \<open>jsonparser_GetInt lib ''{"regionID":1,"typeID":2,"orders":[8,9]}'' ''regionID'' = Inr 1\<close>
    by (simp add: json_eval)
  have d: \<open>jsonparser_GetInt lib ''{"regionID":1,"typeID":2,"orders":[8,9]}'' ''typeID'' = Inr 2\<close>
    by (simp add: json_eval)
  have e: \<open>snappy_Decode lib (snappy_Encode lib ''{"regionID":1,"typeID":2,"orders":[8,9]}'')
     = Inr ''{"regionID":1,"typeID":2,"orders":[8,9]}''\<close>
    by (simp add: decompress_compress)
  show ?thesis
    using pk a b c d e store_works_no_faults
      upsert_twice_last_write_wins [OF pk a b c d e store_works_no_faults store_works_no_faults]
    by simp
qed

subsection \<open>A pair that was never ingested\<close>

lemma concatRowsToJSON_Nil: "concatRowsToJSON E [] = Ok ''[]''"
  by (simp add: concatRowsToJSON_def)

text \<open>
  Claim C2, as the code has it. For a pair of path parameters that the store reads as the
  integers \<open>r\<close> and \<open>t\<close>, a table with no row of the key \<open>(r, t)\<close> and a run in which
  the store does not fail, \<^verbatim>\<open>getRegionType\<close> answers with status 200 and the body
  \<^verbatim>\<open>[]\<close>, and leaves the store as it was. An empty result set is no error.
\<close>

theorem unknown_pair_gives_empty_array:
  assumes "pg_int8 E regionID = Some r" and "pg_int8 E typeID = Some t"
    and "(r, t) \<notin> row_key ` set (table s)"
    and "store_works F"
  shows "getRegionType E F s regionID typeID = (Data ''[]'', s)"
proof -
  have "filter (\<lambda>x. col_regionID x = r \<and> col_typeID x = t) (table s) = []"
  proof -
    have "\<not> (col_regionID x = r \<and> col_typeID x = t)" if "x \<in> set (table s)" for x
      using assms(3) that by (force simp: row_key_def image_iff)
    then show ?thesis by (simp add: filter_empty_conv)
  qed
  then have "tx_Query_region_type E F (table s) regionID typeID = Inr []"
    using assms by (simp add: tx_Query_region_type_def store_works_def)
  then show ?thesis
    using assms(4)
    by (simp add: getRegionType_respond db_Begin_def respond_def concatRowsToJSON_Nil tx_Commit_def
        store_works_def)
qed

lemma one_row:
  \<open>handleMessage lib no_faults empty_db ''{"regionID":1,"typeID":2,"orders":[7]}'' =
     (None, \<lparr>table = [\<lparr>col_regionID = 1, col_typeID = 2,
                       col_market = compress ''{"regionID":1,"typeID":2,"orders":[7]}''\<rparr>],
             open_txs = 0\<rparr>)\<close>
proof -
  have a: \<open>jsonparser_GetInt lib ''{"regionID":1,"typeID":2,"orders":[7]}'' ''regionID'' = Inr 1\<close>
    by (simp add: json_eval)
  have b: \<open>jsonparser_GetInt lib ''{"regionID":1,"typeID":2,"orders":[7]}'' ''typeID'' = Inr 2\<close>
    by (simp add: json_eval)
  show ?thesis
    by (simp add: handleMessage_commits [OF a b store_works_no_faults] empty_db_def)
qed

theorem unknown_pair_gives_empty_array_witness:
  \<open>pg_int8 lib ''1'' = Some 1 \<and> pg_int8 lib ''3'' = Some 3 \<and>
   (1, 3) \<notin> row_key ` set (table (snd (handleMessage lib no_faults empty_db
                                          ''{"regionID":1,"typeID":2,"orders":[7]}''))) \<and>
   store_works no_faults \<and>
   getRegionType lib no_faults
     (snd (handleMessage lib no_faults empty_db ''{"regionID":1,"typeID":2,"orders":[7]}''))
     ''1'' ''3''
   = (Data ''[]'',
      snd (handleMessage lib no_faults empty_db ''{"regionID":1,"typeID":2,"orders":[7]}''))\<close>
proof -
  have a: "pg_int8 lib ''1'' = Some 1" by (simp add: json_eval)
  have b: "pg_int8 lib ''3'' = Some 3" by (simp add: json_eval)
  have c: \<open>(1, 3) \<notin> row_key ` set (table (snd (handleMessage lib no_faults empty_db
                                          ''{"regionID":1,"typeID":2,"orders":[7]}'')))\<close>
    by (simp add: one_row row_key_def)
  show ?thesis
    using a b c store_works_no_faults
      unknown_pair_gives_empty_array [OF a b c store_works_no_faults]
    by simp
qed

text \<open>
  The claim as the spec words it asks for status 404 here. On the empty store the answer
  to \<^verbatim>\<open>GET /api/orders/v1/region/10000002/type/34/\<close> is 200 with the body \<^verbatim>\<open>[]\<close>.
\<close>

theorem unknown_pair_is_not_404:
  \<open>fst (getRegionType lib no_faults empty_db ''10000002'' ''34'') = Data ''[]'' \<and>
   status_of (fst (getRegionType lib no_faults empty_db ''10000002'' ''34'')) = Some 200 \<and>
   status_of (fst (getRegionType lib no_faults empty_db ''10000002'' ''34'')) \<noteq> Some 404\<close>
proof -
  have a: "parse_int64 ''10000002'' = Some 10000002" by (simp add: json_eval)
  have b: "parse_int64 ''34'' = Some 34" by (simp add: json_eval)
  have "getRegionType lib no_faults empty_db ''10000002'' ''34'' = (Data ''[]'', empty_db)"
    by (simp add: getRegionType_respond db_Begin_def tx_Query_region_type_def a b empty_db_def
        respond_def concatRowsToJSON_Nil tx_Commit_def)
  then show ?thesis
    by (simp add: status_of_def Data_def)
qed

subsection \<open>A row without the field\<close>

lemma concat_loop_fails:
  assumes "row \<in> set rows" and "row_orders E row = Inl e"
    and "\<forall>r\<in>set rows. \<forall>v. row_orders E r = Inr v \<longrightarrow> 2 \<le> length v"
  shows "\<exists>e'. concat_loop E acc rows = Err e'"
  using assms
proof (induction rows arbitrary: acc)
  case Nil
  then show ?case by simp
next
  case (Cons x xs)
  show ?case
  proof (cases "row_orders E x")
    case (Inl a)
    then show ?thesis by (simp add: concat_loop_step del: concat_loop.simps)
  next
    case (Inr v)
    then have len: "2 \<le> length v" using Cons.prems(3) by simp
    have "row \<in> set xs" using Cons.prems(1,2) Inr by auto
    then obtain e' where "concat_loop E (acc @ inside v @ '','') xs = Err e'"
      using Cons.IH [of "acc @ inside v @ '',''"] Cons.prems(2,3) by auto
    then show ?thesis
      using Inr len by (simp add: concat_loop_step del: concat_loop.simps)
  qed
qed

text \<open>
  Claim C4, as the code has it. If some row decompresses to a payload in which
  \<^verbatim>\<open>jsonparser.Get\<close> finds no \<^verbatim>\<open>orders\<close> (it returns an error), the merge returns no
  output at all, whatever the other rows hold: nothing partial comes back. It ends with an
  error, provided every row that does give a value for \<^verbatim>\<open>orders\<close> gives one of two
  bytes or more, as every array literal is.
\<close>

theorem row_without_orders_fails_merge:
  assumes "Inr m \<in> set rows" and "snappy_Decode E m = Inr d"
    and "jsonparser_Get E d ''orders'' = Inl e"
  shows "(\<forall>out. concatRowsToJSON E rows \<noteq> Ok out) \<and>
         ((\<forall>r\<in>set rows. \<forall>v. row_orders E r = Inr v \<longrightarrow> 2 \<le> length v) \<longrightarrow>
          (\<exists>e'. concatRowsToJSON E rows = Err e'))"
proof -
  have bad: "row_orders E (Inr m) = Inl e"
    using assms(2,3) by (simp add: row_orders_def)
  have no_out: "concatRowsToJSON E rows \<noteq> Ok out" for out
  proof
    assume "concatRowsToJSON E rows = Ok out"
    then obtain vs where "map (row_orders E) rows = map Inr vs"
      unfolding concatRowsToJSON_Ok by blast
    then have "row_orders E (Inr m) \<in> set (map Inr vs)"
      using assms(1) by (metis image_eqI set_map)
    then show False using bad by auto
  qed
  have "\<exists>e'. concatRowsToJSON E rows = Err e'"
    if long: "\<forall>r\<in>set rows. \<forall>v. row_orders E r = Inr v \<longrightarrow> 2 \<le> length v"
  proof -
    obtain e' where "concat_loop E ''['' rows = Err e'"
      using concat_loop_fails [OF assms(1) bad long] by blast
    then show ?thesis by (simp add: concatRowsToJSON_def)
  qed
  with no_out show ?thesis by blast
qed

theorem row_without_orders_fails_merge_witness:
  \<open>Inr (compress ''{"regionID":2,"typeID":34}'')
     \<in> set [Inr (compress ''{"regionID":1,"typeID":34,"orders":[7]}''),
            Inr (compress ''{"regionID":2,"typeID":34}'')] \<and>
   snappy_Decode lib (compress ''{"regionID":2,"typeID":34}'') = Inr ''{"regionID":2,"typeID":34}'' \<and>
   jsonparser_Get lib ''{"regionID":2,"typeID":34}'' ''orders'' = Inl KeyPathNotFoundError \<and>
   (\<forall>out. concatRowsToJSON lib [Inr (compress ''{"regionID":1,"typeID":34,"orders":[7]}''),
                                Inr (compress ''{"regionID":2,"typeID":34}'')] \<noteq> Ok out) \<and>
   list_all (\<lambda>r. case row_orders lib r of Inl _ \<Rightarrow> True | Inr v \<Rightarrow> 2 \<le> length v)
     [Inr (compress ''{"regionID":1,"typeID":34,"orders":[7]}''),
      Inr (compress ''{"regionID":2,"typeID":34}'')] \<and>
   (\<exists>e'. concatRowsToJSON lib [Inr (compress ''{"regionID":1,"typeID":34,"orders":[7]}''),
                               Inr (compress ''{"regionID":2,"typeID":34}'')] = Err e')\<close>
proof -
  have a: \<open>Inr (compress ''{"regionID":2,"typeID":34}'')
     \<in> set [Inr (compress ''{"regionID":1,"typeID":34,"orders":[7]}''),
            Inr (compress ''{"regionID":2,"typeID":34}'') :: error + bytes]\<close>
    by simp
  have b: \<open>snappy_Decode lib (compress ''{"regionID":2,"typeID":34}'')
            = Inr ''{"regionID":2,"typeID":34}''\<close>
    by (simp add: decompress_compress)
  have c: \<open>jsonparser_Get lib ''{"regionID":2,"typeID":34}'' ''orders'' = Inl KeyPathNotFoundError\<close>
    by (simp add: json_eval)
  have g: \<open>Get ''{"regionID":1,"typeID":34,"orders":[7]}'' ''orders'' = Inr (''[7]'', Array)\<close>
    by (simp add: json_eval)
  have r1: \<open>row_orders lib (Inr (compress ''{"regionID":1,"typeID":34,"orders":[7]}'')) = Inr ''[7]''\<close>
    by (simp add: row_orders_lib g)
  have r2: \<open>row_orders lib (Inr (compress ''{"regionID":2,"typeID":34}'')) = Inl KeyPathNotFoundError\<close>
    using c by (simp add: row_orders_lib)
  have d: \<open>\<forall>r\<in>set [Inr (compress ''{"regionID":1,"typeID":34,"orders":[7]}''),
                    Inr (compress ''{"regionID":2,"typeID":34}'')].
             \<forall>v. row_orders lib r = Inr v \<longrightarrow> 2 \<le> length v\<close>
    by (simp add: r1 r2)
  show ?thesis
    using a b c d row_without_orders_fails_merge [OF a b c]
    by (simp add: r1 r2)
qed

text \<open>
  The claim as the spec words it also has the merge fail on a value of \<^verbatim>\<open>orders\<close> that
  is not an array. \<^verbatim>\<open>concatRowsToJSON\<close> never looks at the type of the value: for the
  number 123 it strips the first and the last byte and returns \<^verbatim>\<open>[2]\<close>, with no error.
\<close>

theorem orders_not_an_array_is_merged:
  \<open>snappy_Decode lib (compress ''{"regionID":1,"typeID":2,"orders":123}'')
     = Inr ''{"regionID":1,"typeID":2,"orders":123}'' \<and>
   jsonparser_Get lib ''{"regionID":1,"typeID":2,"orders":123}'' ''orders'' = Inr (''123'', Number) \<and>
   concatRowsToJSON lib [Inr (compress ''{"regionID":1,"typeID":2,"orders":123}'')] = Ok ''[2]''\<close>
proof -
  have g: \<open>Get ''{"regionID":1,"typeID":2,"orders":123}'' ''orders'' = Inr (''123'', Number)\<close>
    by (simp add: json_eval)
  show ?thesis
    by (simp add: decompress_compress g concatRowsToJSON_def concat_loop_step row_orders_lib
        inside_def del: concat_loop.simps(2))
qed

subsection \<open>Status codes of the query handlers\<close>

lemma status_of_simps [simp]:
  "status_of (AbortWithError code err) = Some code"
  "status_of (Data r) = Some 200"
  "status_of HandlerPanic = None"
  by (simp_all add: status_of_def AbortWithError_def Data_def)

lemma row_fails_iff: "row_fails E row \<longleftrightarrow> isl (row_orders E row)"
  by (auto simp: row_fails_def row_orders_def isl_def split: sum.splits prod.splits)

lemma concat_loop_first_failure:
  assumes "list_all (splices E) pre" and "row_fails E row"
  shows "\<exists>e. concat_loop E acc (pre @ row # post) = Err e"
  using assms(1)
proof (induction pre arbitrary: acc)
  case Nil
  obtain e where "row_orders E row = Inl e"
    using assms(2) unfolding row_fails_iff by (auto simp: isl_def)
  then show ?case by (simp add: concat_loop_step del: concat_loop.simps)
next
  case (Cons x xs)
  then have xs: "list_all (splices E) xs" and x: "splices E x"
    by simp_all
  obtain v where v: "row_orders E x = Inr v" "2 \<le> length v"
    using x by (auto simp: splices_def split: sum.splits)
  obtain e where "concat_loop E (acc @ inside v @ '','') (xs @ row # post) = Err e"
    using Cons.IH [OF xs] by blast
  then show ?case
    using v by (simp add: concat_loop_step del: concat_loop.simps)
qed

lemma concat_loop_Err_row:
  "concat_loop E acc rows = Err e \<Longrightarrow> \<exists>row\<in>set rows. row_fails E row"
proof (induction rows arbitrary: acc)
  case Nil
  then show ?case by simp
next
  case (Cons x xs)
  show ?case
  proof (cases "row_orders E x")
    case (Inl a)
    then have "row_fails E x" by (simp add: row_fails_iff)
    then show ?thesis by simp
  next
    case (Inr v)
    then have "concat_loop E (acc @ inside v @ '','') xs = Err e"
      using Cons.prems by (simp add: concat_loop_step split: if_splits del: concat_loop.simps)
    then show ?thesis using Cons.IH by auto
  qed
qed

lemma concatRowsToJSON_first_failure:
  assumes "list_all (splices E) pre" and "row_fails E row"
  shows "\<exists>e. concatRowsToJSON E (pre @ row # post) = Err e"
proof -
  obtain e where "concat_loop E ''['' (pre @ row # post) = Err e"
    using concat_loop_first_failure [OF assms] by blast
  then show ?thesis by (simp add: concatRowsToJSON_def)
qed

lemma concatRowsToJSON_Err_row:
  "concatRowsToJSON E rows = Err e \<Longrightarrow> \<exists>row\<in>set rows. row_fails E row"
  by (auto simp: concatRowsToJSON_def split: result.splits dest: concat_loop_Err_row)

lemma splices_values:
  "list_all (splices E) rows \<Longrightarrow>
   \<exists>vs. map (row_orders E) rows = map Inr vs \<and> list_all (\<lambda>v. 2 \<le> length v) vs"
proof (induction rows)
  case Nil
  then show ?case by simp
next
  case (Cons x xs)
  then have xs: "list_all (splices E) xs" and x: "splices E x"
    by simp_all
  obtain v where v: "row_orders E x = Inr v" "2 \<le> length v"
    using x by (auto simp: splices_def split: sum.splits)
  obtain vs where "map (row_orders E) xs = map Inr vs" "list_all (\<lambda>v. 2 \<le> length v) vs"
    using Cons.IH [OF xs] by blast
  then have "map (row_orders E) (x # xs) = map Inr (v # vs) \<and> list_all (\<lambda>v. 2 \<le> length v) (v # vs)"
    using v by simp
  then show ?case by blast
qed

lemma concatRowsToJSON_splices:
  assumes "list_all (splices E) rows"
  shows "\<exists>vs. map (row_orders E) rows = map Inr vs \<and>
              concatRowsToJSON E rows = Ok (''['' @ join_comma (map inside vs) @ '']'')"
proof -
  obtain vs where vs: "map (row_orders E) rows = map Inr vs" "list_all (\<lambda>v. 2 \<le> length v) vs"
    using splices_values [OF assms] by blast
  then have "concatRowsToJSON E rows = Ok (''['' @ join_comma (map inside vs) @ '']'')"
    unfolding concatRowsToJSON_Ok by blast
  with vs(1) show ?thesis by blast
qed

lemma respond_query_statuses:
  assumes "begin_err F = None"
  shows "query_statuses E F q (fst (respond E F t s1 q))"
proof (cases q)
  case (Inl e)
  then show ?thesis
    using assms by (simp add: query_statuses_def respond_def)
next
  case (Inr rows)
  show ?thesis
  proof (cases "concatRowsToJSON E rows")
    case (Ok r)
    have no_fail: False
      if "rows = pre @ row # post" "list_all (splices E) pre" "row_fails E row" for pre row post
      using concatRowsToJSON_first_failure [OF that(2,3), of post] Ok that(1) by auto
    have body: "\<exists>vs. map (row_orders E) rows = map Inr vs \<and>
                     r = ''['' @ join_comma (map inside vs) @ '']''"
      if "list_all (splices E) rows"
      using concatRowsToJSON_splices [OF that] Ok by auto
    show ?thesis
    proof (cases "commit_err F")
      case None
      then have rep: "fst (respond E F t s1 q) = Data r"
        using Inr Ok by (simp add: respond_def tx_Commit_def)
      show ?thesis
        unfolding query_statuses_def rep
        using assms Inr None no_fail body by (auto simp: status_of_simps)
    next
      case (Some e)
      then have rep: "fst (respond E F t s1 q) = AbortWithError 500 e"
        using Inr Ok by (simp add: respond_def tx_Commit_def)
      show ?thesis
        unfolding query_statuses_def rep
        using assms Inr Some no_fail by (auto simp: status_of_simps)
    qed
  next
    case (Err e)
    then have rep: "fst (respond E F t s1 q) = AbortWithError 404 e"
      using Inr by (simp add: respond_def)
    have not_all: "\<not> list_all (splices E) rows"
      using concatRowsToJSON_splices [of E rows] Err by auto
    obtain row where "row \<in> set rows" "row_fails E row"
      using concatRowsToJSON_Err_row [OF Err] by blast
    then show ?thesis
      unfolding query_statuses_def rep
      using assms Inr not_all by (auto simp: status_of_simps)
  next
    case Panic
    then have rep: "fst (respond E F t s1 q) = HandlerPanic"
      using Inr by (simp add: respond_def)
    have no_fail: False
      if "rows = pre @ row # post" "list_all (splices E) pre" "row_fails E row" for pre row post
      using concatRowsToJSON_first_failure [OF that(2,3), of post] Panic that(1) by auto
    have not_all: "\<not> list_all (splices E) rows"
      using concatRowsToJSON_splices [of E rows] Panic by auto
    show ?thesis
      unfolding query_statuses_def rep
      using assms Inr not_all no_fail by (auto simp: status_of_simps)
  qed
qed

lemma begin_query_statuses:
  "begin_err F = Some e \<Longrightarrow> query_statuses E F q (AbortWithError 500 e)"
  by (simp add: query_statuses_def)


lemma no_orders_db_ingested:
  \<open>handleMessage lib no_faults empty_db ''{"regionID":1,"typeID":2}'' = (None, no_orders_db)\<close>
proof -
  have a: \<open>jsonparser_GetInt lib ''{"regionID":1,"typeID":2}'' ''regionID'' = Inr 1\<close>
    by (simp add: json_eval)
  have b: \<open>jsonparser_GetInt lib ''{"regionID":1,"typeID":2}'' ''typeID'' = Inr 2\<close>
    by (simp add: json_eval)
  show ?thesis
    by (simp add: handleMessage_commits [OF a b store_works_no_faults] empty_db_def
        no_orders_db_def)
qed

lemma parse_1_2 [simp]: "parse_int64 ''1'' = Some 1" "parse_int64 ''2'' = Some 2"
  by (simp_all add: json_eval)

lemma no_orders_rows:
  \<open>tx_Query_region_type lib no_faults (table no_orders_db) ''1'' ''2''
     = Inr [Inr (compress ''{"regionID":1,"typeID":2}'')]\<close>
  by (simp add: tx_Query_region_type_def no_orders_db_def)

lemma no_orders_merge:
  \<open>concatRowsToJSON lib [Inr (compress ''{"regionID":1,"typeID":2}'')] = Err KeyPathNotFoundError\<close>
proof -
  have \<open>Get ''{"regionID":1,"typeID":2}'' ''orders'' = Inl KeyPathNotFoundError\<close>
    by (simp add: json_eval)
  then show ?thesis
    by (simp add: concatRowsToJSON_def concat_loop_step row_orders_lib del: concat_loop.simps(2))
qed

lemma parse_3 [simp]: "parse_int64 ''3'' = Some 3"
  by (simp add: json_eval)

lemma good_row: "row_orders lib (Inr (compress good_msg)) = Inr ''[7]''"
proof -
  have \<open>Get good_msg ''orders'' = Inr (''[7]'', Array)\<close>
    by (simp add: good_msg_def json_eval)
  then show ?thesis by (simp add: row_orders_lib)
qed

lemma bare_row: "row_orders lib (Inr (compress bare_msg)) = Inl KeyPathNotFoundError"
proof -
  have \<open>Get bare_msg ''orders'' = Inl KeyPathNotFoundError\<close>
    by (simp add: bare_msg_def json_eval)
  then show ?thesis by (simp add: row_orders_lib)
qed

lemma corrupt_row: "snappy_Decode lib ''abc'' = Inl ErrCorrupt"
  by (simp add: decompress_def)

lemma mixed_db_ingested:
  "handleMessage lib no_faults (snd (handleMessage lib no_faults empty_db good_msg)) bare_msg
     = (None, mixed_db)"
proof -
  have a: "jsonparser_GetInt lib good_msg ''regionID'' = Inr 1"
    by (simp add: good_msg_def json_eval)
  have b: "jsonparser_GetInt lib good_msg ''typeID'' = Inr 2"
    by (simp add: good_msg_def json_eval)
  have c: "jsonparser_GetInt lib bare_msg ''regionID'' = Inr 1"
    by (simp add: bare_msg_def json_eval)
  have d: "jsonparser_GetInt lib bare_msg ''typeID'' = Inr 3"
    by (simp add: bare_msg_def json_eval)
  show ?thesis
    by (simp add: handleMessage_commits [OF a b store_works_no_faults]
        handleMessage_commits [OF c d store_works_no_faults] empty_db_def mixed_db_def)
qed

lemma query_statuses_404:
  assumes "query_statuses E F (Inr (pre @ row # post)) rep" and "begin_err F = None"
    and "list_all (splices E) pre" and "row_fails E row"
  shows "status_of rep = Some 404"
  using assms unfolding query_statuses_def by blast

lemma query_statuses_commit:
  assumes "query_statuses E F (Inr rows) rep" and "begin_err F = None"
    and "list_all (splices E) rows" and "commit_err F \<noteq> None"
  shows "status_of rep = Some 500"
  using assms unfolding query_statuses_def by blast

lemma query_statuses_200:
  assumes "query_statuses E F (Inr rows) rep" and "begin_err F = None"
    and "list_all (splices E) rows" and "commit_err F = None"
  shows "\<exists>vs. map (row_orders E) rows = map Inr vs \<and>
              rep = Data (''['' @ join_comma (map inside vs) @ '']'')"
  using assms unfolding query_statuses_def by blast

lemma fault_fields [simp]:
  "begin_err scan_fails = None" "begin_err commit_fails = None" "begin_err fetch_fails = None"
  "commit_err commit_fails = Some ErrBadConn" "commit_err fetch_fails = None"
  by (simp_all add: scan_fails_def commit_fails_def fetch_fails_def)



text \<open>
  A fetch that fails during the iteration is no failure mapping at all: with the second
  of two rows failing to arrive, the answer is status 200 with the first row's orders.
\<close>

lemma fetch_error_gives_200:
  \<open>tx_Query_type lib fetch_fails (table two_rows_db) ''34'' = Inr [Inr (compress full_msg)] \<and>
   fst (getType lib fetch_fails two_rows_db ''34'') = Data ''[{"price":5.5}]''\<close>
proof -
  have p: "parse_int64 ''34'' = Some 34"
    by (simp add: json_eval)
  have q: "tx_Query_type lib fetch_fails (table two_rows_db) ''34''
             = Inr [Inr (compress full_msg)]"
    by (simp add: tx_Query_type_def two_rows_db_def fetch_fails_def p)
  have a: \<open>Get full_msg ''orders'' = Inr (''[{"price":5.5}]'', Array)\<close>
    by (simp add: full_msg_def json_eval)
  have m: \<open>concatRowsToJSON lib [Inr (compress full_msg)] = Ok ''[{"price":5.5}]''\<close>
    by (simp add: concatRowsToJSON_def concat_loop_step row_orders_lib a inside_def
        del: concat_loop.simps(2))
  have "fst (getType lib fetch_fails two_rows_db ''34'') = Data ''[{\"price\":5.5}]''"
    by (simp add: getType_def db_Begin_def q m tx_Commit_def)
  then show ?thesis using q by simp
qed

subsection \<open>Ingest, then query\<close>

lemma concatRowsToJSON_single:
  assumes "snappy_Decode E m = Inr d" and "jsonparser_Get E d ''orders'' = Inr (v, ty)"
    and "2 \<le> length v"
  shows "concatRowsToJSON E [Inr m] = Ok (''['' @ inside v @ '']'')"
proof -
  have "row_orders E (Inr m) = Inr v"
    using assms(1,2) by (simp add: row_orders_def)
  then show ?thesis
    using assms(3) by (simp add: concatRowsToJSON_def concat_loop_step del: concat_loop.simps(2))
qed

text \<open>
  Claim C8. Start from the empty store and let the libraries read the scenario message as
  the spec describes it: \<^verbatim>\<open>regionID\<close> 10000002, \<^verbatim>\<open>typeID\<close> 34, the array
  \<^verbatim>\<open>[{"price":5.5}]\<close> under \<^verbatim>\<open>orders\<close>, a codec that gives the message back, and a store
  that reads the two path parameters as these integers and does not fail (at begin,
  statement and commit, nor at fetching and scanning the row). Then
  \<^verbatim>\<open>handleMessage\<close> accepts the message, and \<^verbatim>\<open>getRegionType\<close> on
  \<^verbatim>\<open>/region/10000002/type/34/\<close> afterwards answers with status 200 and exactly that array
  as the body.
\<close>

theorem ingest_then_query:
  assumes "jsonparser_GetInt E scenario_msg ''regionID'' = Inr 10000002"
    and "jsonparser_GetInt E scenario_msg ''typeID'' = Inr 34"
    and "snappy_Decode E (snappy_Encode E scenario_msg) = Inr scenario_msg"
    and "jsonparser_Get E scenario_msg ''orders'' = Inr (scenario_orders, ty)"
    and "pg_int8 E ''10000002'' = Some 10000002" and "pg_int8 E ''34'' = Some 34"
    and "store_works F1" and "store_works F2"
    and "next_err F2 0 = None" and "scan_err F2 0 = None"
  shows "\<exists>s1 rep.
           handleMessage E F1 empty_db scenario_msg = (None, s1) \<and>
           fst (getRegionType E F2 s1 ''10000002'' ''34'') = Reply rep \<and>
           status rep = 200 \<and> body rep = scenario_orders"
proof -
  define s1 where
    "s1 = empty_db\<lparr>table := upsert 10000002 34 (snappy_Encode E scenario_msg) (table empty_db)\<rparr>"
  have 1: "handleMessage E F1 empty_db scenario_msg = (None, s1)"
    unfolding s1_def using assms(1,2,7) by (rule handleMessage_commits)
  have tbl: "table s1 = [\<lparr>col_regionID = 10000002, col_typeID = 34,
                           col_market = snappy_Encode E scenario_msg\<rparr>]"
    by (simp add: s1_def empty_db_def)
  have q: "tx_Query_region_type E F2 (table s1) ''10000002'' ''34''
             = Inr [Inr (snappy_Encode E scenario_msg)]"
    using assms(5,6,8,9,10) by (simp add: tx_Query_region_type_def tbl store_works_def)
  have "2 \<le> length scenario_orders"
    by (simp add: scenario_orders_def)
  then have m: "concatRowsToJSON E [Inr (snappy_Encode E scenario_msg)]
                  = Ok (''['' @ inside scenario_orders @ '']'')"
    using assms(3,4) by (rule concatRowsToJSON_single [rotated 2])
  have io: "''['' @ inside scenario_orders @ '']'' = scenario_orders"
    by (simp add: scenario_orders_def inside_def)
  have "fst (getRegionType E F2 s1 ''10000002'' ''34'') = Data scenario_orders"
    using assms(8) q m io
    by (simp add: getRegionType_respond db_Begin_def respond_def tx_Commit_def store_works_def)
  then show ?thesis
    using 1 by (simp add: Data_def)
qed

theorem ingest_then_query_witness:
  \<open>jsonparser_GetInt lib scenario_msg ''regionID'' = Inr 10000002 \<and>
   jsonparser_GetInt lib scenario_msg ''typeID'' = Inr 34 \<and>
   snappy_Decode lib (snappy_Encode lib scenario_msg) = Inr scenario_msg \<and>
   jsonparser_Get lib scenario_msg ''orders'' = Inr (scenario_orders, Array) \<and>
   pg_int8 lib ''10000002'' = Some 10000002 \<and> pg_int8 lib ''34'' = Some 34 \<and>
   store_works no_faults \<and> next_err no_faults 0 = None \<and> scan_err no_faults 0 = None \<and>
   (\<exists>s1 rep.
      handleMessage lib no_faults empty_db scenario_msg = (None, s1) \<and>
      fst (getRegionType lib no_faults s1 ''10000002'' ''34'') = Reply rep \<and>
      status rep = 200 \<and> body rep = scenario_orders)\<close>
proof -
  have a: "jsonparser_GetInt lib scenario_msg ''regionID'' = Inr 10000002"
    by (simp add: scenario_msg_def json_eval)
  have b: "jsonparser_GetInt lib scenario_msg ''typeID'' = Inr 34"
    by (simp add: scenario_msg_def json_eval)
  have c: "snappy_Decode lib (snappy_Encode lib scenario_msg) = Inr scenario_msg"
    by (simp add: decompress_compress)
  have d: "jsonparser_Get lib scenario_msg ''orders'' = Inr (scenario_orders, Array)"
    by (simp add: scenario_msg_def scenario_orders_def json_eval)
  have e: "pg_int8 lib ''10000002'' = Some 10000002"
    by (simp add: json_eval)
  have f: "pg_int8 lib ''34'' = Some 34"
    by (simp add: json_eval)
  have g: "scan_err no_faults 0 = None"
    by simp
  have n: "next_err no_faults 0 = None"
    by simp
  show ?thesis
    using a b c d e f g n store_works_no_faults
      ingest_then_query [OF a b c d e f store_works_no_faults store_works_no_faults n g]
    by simp
qed

subsection \<open>A row with an empty array\<close>

lemma two_rows_db_ingested:
  "handleMessage lib no_faults (snd (handleMessage lib no_faults empty_db full_msg)) empty_msg
     = (None, two_rows_db)"
proof -
  have a: "jsonparser_GetInt lib full_msg ''regionID'' = Inr 1"
    by (simp add: full_msg_def json_eval)
  have b: "jsonparser_GetInt lib full_msg ''typeID'' = Inr 34"
    by (simp add: full_msg_def json_eval)
  have c: "jsonparser_GetInt lib empty_msg ''regionID'' = Inr 2"
    by (simp add: empty_msg_def json_eval)
  have d: "jsonparser_GetInt lib empty_msg ''typeID'' = Inr 34"
    by (simp add: empty_msg_def json_eval)
  show ?thesis
    by (simp add: handleMessage_commits [OF a b store_works_no_faults]
        handleMessage_commits [OF c d store_works_no_faults] empty_db_def two_rows_db_def)
qed

text \<open>
  Claim C1 at an input where the code departs from it. Two messages of type 34 are
  ingested, the second with the empty array under \<^verbatim>\<open>orders\<close>; both are accepted. The
  answer to \<^verbatim>\<open>GET /api/orders/v1/type/34/\<close> then has status 200 and the body
  \<^verbatim>\<open>[{"price":5.5},]\<close>: the loop appends a comma after the empty inside of the second
  row and strips only the last comma. The body has a second element slot with no text in
  it, so it is no array literal; the array literal of the one order that was ingested is
  \<^verbatim>\<open>[{"price":5.5}]\<close>.
\<close>

theorem empty_orders_leaves_stray_comma:
  \<open>handleMessage lib no_faults (snd (handleMessage lib no_faults empty_db full_msg)) empty_msg
     = (None, two_rows_db) \<and>
   fst (getType lib no_faults two_rows_db ''34'') = Data ''[{"price":5.5},]'' \<and>
   elements ''[{"price":5.5},]'' = [''{"price":5.5}'', '''']\<close>
proof -
  have p: "parse_int64 ''34'' = Some 34"
    by (simp add: json_eval)
  have q: "tx_Query_type lib no_faults (table two_rows_db) ''34''
             = Inr [Inr (compress full_msg), Inr (compress empty_msg)]"
    by (simp add: tx_Query_type_def two_rows_db_def p)
  have a: \<open>Get full_msg ''orders'' = Inr (''[{"price":5.5}]'', Array)\<close>
    by (simp add: full_msg_def json_eval)
  have b: \<open>Get empty_msg ''orders'' = Inr (''[]'', Array)\<close>
    by (simp add: empty_msg_def json_eval)
  have m: \<open>concatRowsToJSON lib [Inr (compress full_msg), Inr (compress empty_msg)]
            = Ok ''[{"price":5.5},]''\<close>
    by (simp add: concatRowsToJSON_def concat_loop_step row_orders_lib a b inside_def
        del: concat_loop.simps(2))
  have r: \<open>fst (getType lib no_faults two_rows_db ''34'') = Data ''[{"price":5.5},]''\<close>
    by (simp add: getType_respond db_Begin_def respond_def q m tx_Commit_def)
  have e: \<open>elements ''[{"price":5.5},]'' = [''{"price":5.5}'', '''']\<close>
    by (simp add: elements_def json_eval)
  show ?thesis
    using two_rows_db_ingested r e by simp
qed

subsection \<open>Transactions of the query handlers\<close>

lemma open_txs_after_respond:
  "open_txs (snd (respond E F t s1 q)) =
     (case q of
        Inl _ \<Rightarrow> open_txs s1
      | Inr rows \<Rightarrow>
        (case concatRowsToJSON E rows of Ok _ \<Rightarrow> open_txs s1 - 1 | _ \<Rightarrow> open_txs s1))"
  by (simp add: respond_def tx_Commit_def split: sum.splits result.splits option.splits)

text \<open>
  Claim C6 at inputs where the code departs from it. A message without \<^verbatim>\<open>orders\<close> is
  accepted by \<^verbatim>\<open>handleMessage\<close>, which leaves no transaction open. The query for its
  pair then answers 404, and the query for the region \<^verbatim>\<open>abc\<close> answers 500; each returns
  with the transaction it began still open, since only the path that reaches
  \<^verbatim>\<open>tx.Commit\<close> ends the transaction and no path rolls it back.
\<close>

theorem merge_error_leaves_transaction_open:
  \<open>handleMessage lib no_faults empty_db ''{"regionID":1,"typeID":2}'' = (None, no_orders_db) \<and>
   open_txs no_orders_db = 0 \<and>
   status_of (fst (getRegionType lib no_faults no_orders_db ''1'' ''2'')) = Some 404 \<and>
   open_txs (snd (getRegionType lib no_faults no_orders_db ''1'' ''2'')) = 1 \<and>
   status_of (fst (getRegion lib no_faults no_orders_db ''abc'')) = Some 500 \<and>
   open_txs (snd (getRegion lib no_faults no_orders_db ''abc'')) = 1\<close>
proof -
  have a: "open_txs no_orders_db = 0"
    by (simp add: no_orders_db_def)
  have b: "getRegionType lib no_faults no_orders_db ''1'' ''2''
             = (AbortWithError 404 KeyPathNotFoundError, no_orders_db\<lparr>open_txs := 1\<rparr>)"
    by (simp add: getRegionType_respond db_Begin_def respond_def no_orders_rows no_orders_merge a)
  have "parse_int64 ''abc'' = None"
    by (simp add: json_eval)
  then have c: "getRegion lib no_faults no_orders_db ''abc''
             = (AbortWithError 500 ErrInvalidTextRepresentation, no_orders_db\<lparr>open_txs := 1\<rparr>)"
    by (simp add: getRegion_respond db_Begin_def respond_def tx_Query_region_def a)
  show ?thesis
    using no_orders_db_ingested a b c by simp
qed

text \<open>
  The count of open transactions after each query handler, on every path: it is back at its
  value from before only when \<^verbatim>\<open>db.Begin\<close> failed or \<^verbatim>\<open>tx.Commit\<close> was reached, and
  one higher after a failed query and after a merge that did not return an output.
\<close>

lemma open_txs_after_query:
  "open_txs (snd (getRegion E F s regionID)) =
     (if begin_err F \<noteq> None then open_txs s
      else case tx_Query_region E F (table s) regionID of
             Inl _ \<Rightarrow> open_txs s + 1
           | Inr rows \<Rightarrow>
             (case concatRowsToJSON E rows of Ok _ \<Rightarrow> open_txs s | _ \<Rightarrow> open_txs s + 1))"
  "open_txs (snd (getType E F s typeID)) =
     (if begin_err F \<noteq> None then open_txs s
      else case tx_Query_type E F (table s) typeID of
             Inl _ \<Rightarrow> open_txs s + 1
           | Inr rows \<Rightarrow>
             (case concatRowsToJSON E rows of Ok _ \<Rightarrow> open_txs s | _ \<Rightarrow> open_txs s + 1))"
  "open_txs (snd (getRegionType E F s regionID typeID)) =
     (if begin_err F \<noteq> None then open_txs s
      else case tx_Query_region_type E F (table s) regionID typeID of
             Inl _ \<Rightarrow> open_txs s + 1
           | Inr rows \<Rightarrow>
             (case concatRowsToJSON E rows of Ok _ \<Rightarrow> open_txs s | _ \<Rightarrow> open_txs s + 1))"
  by (auto simp: getRegion_respond getType_respond getRegionType_respond db_Begin_def
      open_txs_after_respond split: sum.splits result.splits option.splits)

subsection \<open>Rows whose arrays all have elements\<close>

text \<open>
  Where no array is empty the merge is exact: when every row's value of \<^verbatim>\<open>orders\<close>
  is an array literal written from at least one element, the merge returns the array
  literal written from all these elements, each once, row after row.
\<close>

lemma merge_of_nonempty_arrays:
  assumes "map (row_orders E) rows = map (\<lambda>es. Inr (array_text es)) ess"
    and "list_all (\<lambda>es. es \<noteq> []) ess"
  shows "concatRowsToJSON E rows = Ok (array_text (concat ess))"
proof -
  have "list_all (\<lambda>v. 2 \<le> length v) (map array_text ess)"
    by (simp add: list_all_iff array_text_def)
  moreover have "map (row_orders E) rows = map Inr (map array_text ess)"
    using assms(1) by simp
  ultimately have m: "concatRowsToJSON E rows =
      Ok (''['' @ join_comma (map inside (map array_text ess)) @ '']'')"
    unfolding concatRowsToJSON_Ok by blast
  have "map inside (map array_text ess) = map join_comma ess"
    by (simp add: inside_array_text comp_def)
  then have "join_comma (map inside (map array_text ess)) = join_comma (concat ess)"
    using join_comma_groups [OF assms(2)] by (simp only:)
  then show ?thesis
    using m by (simp only: array_text_def)
qed

lemma merge_of_nonempty_arrays_example:
  \<open>map (row_orders lib) [Inr (compress ''{"orders":[1,2]}''), Inr (compress ''{"orders":[3]}'')]
     = map (\<lambda>es. Inr (array_text es)) [[''1'', ''2''], [''3'']] \<and>
   list_all (\<lambda>es. es \<noteq> []) [[''1'', ''2''], [''3'']] \<and>
   concatRowsToJSON lib [Inr (compress ''{"orders":[1,2]}''), Inr (compress ''{"orders":[3]}'')]
     = Ok ''[1,2,3]''\<close>
proof -
  have a: \<open>Get ''{"orders":[1,2]}'' ''orders'' = Inr (''[1,2]'', Array)\<close>
    by (simp add: json_eval)
  have b: \<open>Get ''{"orders":[3]}'' ''orders'' = Inr (''[3]'', Array)\<close>
    by (simp add: json_eval)
  have h: \<open>map (row_orders lib)
             [Inr (compress ''{"orders":[1,2]}''), Inr (compress ''{"orders":[3]}'')]
           = map (\<lambda>es. Inr (array_text es)) [[''1'', ''2''], [''3'']]\<close>
    by (simp add: row_orders_lib a b array_text_def)
  have n: \<open>list_all (\<lambda>es. es \<noteq> []) [[''1'', ''2''], [''3'' :: bytes]]\<close>
    by simp
  show ?thesis
    using h n merge_of_nonempty_arrays [OF h n] by (simp add: array_text_def)
qed

end
